theory Spec2Isabelle
  imports Complex_Main
begin

section \<open>Text helpers of the C++ standard library, as the server uses them\<close>

text \<open>
  \<^verbatim>\<open>::tolower\<close> in the default "C" locale: the 26 upper-case ASCII letters move to lower
  case, every other byte is returned as it is.
\<close>

definition tolower :: "char \<Rightarrow> char" where
  "tolower c =
     (case map_of (zip ''ABCDEFGHIJKLMNOPQRSTUVWXYZ'' ''abcdefghijklmnopqrstuvwxyz'') c of
        Some l \<Rightarrow> l
      | None \<Rightarrow> c)"

text \<open>\<^verbatim>\<open>std::isspace\<close> in the "C" locale: space, and the five controls 9 .. 13.\<close>

definition isspace :: "char \<Rightarrow> bool" where
  "isspace c = (let n = (of_char c :: nat) in n = 32 \<or> (9 \<le> n \<and> n \<le> 13))"

text \<open>
  \<^verbatim>\<open>while (stream >> word)\<close> on a \<^verbatim>\<open>std::istringstream\<close>: the maximal runs of
  non-whitespace characters, in order. \<open>cur\<close> is the word being read.
\<close>

fun split_ws :: "string \<Rightarrow> string \<Rightarrow> string list" where
  "split_ws cur [] = (if cur = [] then [] else [cur])"
| "split_ws cur (c # cs) =
     (if isspace c then (if cur = [] then [] else [cur]) @ split_ws [] cs
      else split_ws (cur @ [c]) cs)"

definition stream_words :: "string \<Rightarrow> string list" where
  "stream_words s = split_ws [] s"

text \<open>
  \<^verbatim>\<open>while (std::getline(stream, item, delim))\<close> on a string stream: the pieces between
  delimiters; a final piece is delivered only when it is not empty (at the end of the
  input \<^verbatim>\<open>getline\<close> extracts nothing and fails).
\<close>

fun split_delim :: "char \<Rightarrow> string \<Rightarrow> string \<Rightarrow> string list" where
  "split_delim d cur [] = (if cur = [] then [] else [cur])"
| "split_delim d cur (c # cs) =
     (if c = d then cur # split_delim d [] cs else split_delim d (cur @ [c]) cs)"

definition getlines :: "char \<Rightarrow> string \<Rightarrow> string list" where
  "getlines d s = split_delim d [] s"

text \<open>\<^verbatim>\<open>std::to_string(int)\<close>: decimal digits, with a leading minus sign below zero.\<close>

definition digit_char :: "nat \<Rightarrow> char" where
  "digit_char d = ''0123456789'' ! d"

fun digits10 :: "nat \<Rightarrow> string" where
  "digits10 n = (if n < 10 then [digit_char n] else digits10 (n div 10) @ [digit_char (n mod 10)])"

declare digits10.simps [simp del]

definition to_string :: "int \<Rightarrow> string" where
  "to_string i = (if i < 0 then CHR ''-'' # digits10 (nat (- i)) else digits10 (nat i))"

text \<open>
  The conversion of a \<^verbatim>\<open>size_t\<close> loop counter to the \<^verbatim>\<open>int\<close> parameter of
  \<^verbatim>\<open>addMovie\<close>: the value modulo \<open>2^32\<close>, read as two's complement.
\<close>

definition to_int :: "nat \<Rightarrow> int" where
  "to_int n = (let m = n mod 2 ^ 32 in if m < 2 ^ 31 then int m else int m - 2 ^ 32)"

text \<open>
  \<^verbatim>\<open>static_cast<int>(float)\<close>: the fractional part is discarded (rounding towards zero).
  The C++ conversion is defined only when the truncated value fits an \<^verbatim>\<open>int\<close>; ratings
  are modelled by the real number a finite \<^verbatim>\<open>float\<close> denotes.
\<close>

definition trunc_int :: "real \<Rightarrow> int" where
  "trunc_int r = (if 0 \<le> r then \<lfloor>r\<rfloor> else \<lceil>r\<rceil>)"

section \<open>The data model\<close>

record Movie =
  id' :: int
  title :: string
  overview :: string
  language :: string
  genres :: "string list"
  year :: int
  rating :: real
  posterUrl :: string

text \<open>
  \<^verbatim>\<open>std::unordered_map<std::string, std::unordered_set<int>> index\<close>: a partial map from
  keys to posting sets. A key can be present with any set; absent keys are \<open>None\<close>.
\<close>

type_synonym index = "string \<rightharpoonup> int set"

section \<open>\<^verbatim>\<open>InvertedIndex\<close>\<close>

definition toLower :: "string \<Rightarrow> string" where
  "toLower str = map tolower str"

text \<open>The character set of \<^verbatim>\<open>cleanWord\<close>: \<^verbatim>\<open> ".,:;!?()[]{}<>\<close> (space and double quote first).\<close>

definition clean_chars :: "char list" where
  "clean_chars = CHR '' '' # CHR 0x22 # ''.,:;!?()[]{}<>''"

definition cleanWord :: "string \<Rightarrow> string" where
  "cleanWord word =
     (let clean = dropWhile (\<lambda>c. c \<in> set clean_chars) word
      in if clean \<noteq> [] then rev (dropWhile (\<lambda>c. c \<in> set clean_chars) (rev clean)) else clean)"

text \<open>\<^verbatim>\<open>index[key].insert(movieId)\<close>: an absent key is created with the empty set first.\<close>

definition addToIndex :: "string \<Rightarrow> int \<Rightarrow> index \<Rightarrow> index" where
  "addToIndex key movieId idx =
     idx(key \<mapsto> insert movieId (case idx key of None \<Rightarrow> {} | Some s \<Rightarrow> s))"

text \<open>The lambda \<^verbatim>\<open>processText\<close> of \<^verbatim>\<open>addMovie\<close>: the keys it inserts, in order.\<close>

definition processText :: "string \<Rightarrow> string \<Rightarrow> string list" where
  "processText text category =
     map (\<lambda>word. category @ word)
       (filter (\<lambda>word. word \<noteq> []) (map (\<lambda>word. toLower (cleanWord word)) (stream_words text)))"

text \<open>
  The keys \<^verbatim>\<open>addMovie\<close> passes to \<^verbatim>\<open>addToIndex\<close>, in the order of the calls: genre words,
  year, language, rating buckets from the truncated rating up to 10, title words,
  overview words.
\<close>

definition addMovie_keys :: "Movie \<Rightarrow> string list" where
  "addMovie_keys movie =
     concat (map (\<lambda>genre. map (\<lambda>word. ''genre_'' @ toLower word) (stream_words genre)) (genres movie))
     @ [''year_'' @ to_string (year movie)]
     @ [''language_'' @ toLower (language movie)]
     @ map (\<lambda>i. ''rating_'' @ to_string i) [trunc_int (rating movie)..10]
     @ processText (title movie) ''title_''
     @ processText (overview movie) ''overview_''"

definition addMovie :: "int \<Rightarrow> Movie \<Rightarrow> index \<Rightarrow> index" where
  "addMovie mid movie idx = fold (\<lambda>key. addToIndex key mid) (addMovie_keys movie) idx"

text \<open>The posting set stored under a key, empty when the key is absent.\<close>

definition postings :: "index \<Rightarrow> string \<Rightarrow> int set" where
  "postings idx key = (case idx key of None \<Rightarrow> {} | Some s \<Rightarrow> s)"

definition searchByCategory :: "index \<Rightarrow> string \<Rightarrow> string \<Rightarrow> int set" where
  "searchByCategory idx category val =
     (let key = category @ ''_'' @ toLower val
      in if idx key \<noteq> None then postings idx key else {})"

text \<open>The six prefixes both keyword loops iterate over, in the source's order.\<close>

definition category_prefixes :: "string list" where
  "category_prefixes = [''title_'', ''overview_'', ''genre_'', ''language_'', ''year_'', ''rating_'']"

text \<open>The inner loop over the categories: the union of the postings of the keys present.\<close>

definition keyResults :: "index \<Rightarrow> string \<Rightarrow> int set" where
  "keyResults idx cleanedKey =
     fold (\<lambda>category acc. (let fullKey = category @ cleanedKey
                            in if idx fullKey \<noteq> None then acc \<union> postings idx fullKey else acc))
       category_prefixes {}"

definition intersectResults :: "int set \<Rightarrow> int set \<Rightarrow> int set" where
  "intersectResults baseResults additionalResults = {i \<in> baseResults. i \<in> additionalResults}"

text \<open>
  The loop of \<^verbatim>\<open>searchByKeywords\<close>, with its two variables \<^verbatim>\<open>currentResults\<close> and
  \<^verbatim>\<open>isFirst\<close>; the \<^verbatim>\<open>break\<close> is the branch that returns without the recursive call.
\<close>

fun keywords_loop :: "index \<Rightarrow> string list \<Rightarrow> int set \<Rightarrow> bool \<Rightarrow> int set" where
  "keywords_loop idx [] currentResults isFirst = currentResults"
| "keywords_loop idx (key # keys) currentResults isFirst =
     (let cleanedKey = toLower (cleanWord key);
          kr = keyResults idx cleanedKey;
          current' = (if isFirst then kr else intersectResults currentResults kr)
      in if current' = {} then current' else keywords_loop idx keys current' False)"

definition searchByKeywords :: "index \<Rightarrow> string list \<Rightarrow> int set" where
  "searchByKeywords idx keys = keywords_loop idx keys {} True"

section \<open>The process-wide state\<close>

text \<open>
  The globals \<^verbatim>\<open>invertedIndex\<close>, \<^verbatim>\<open>movies\<close>, \<^verbatim>\<open>genres\<close>, \<^verbatim>\<open>languages\<close>, \<^verbatim>\<open>years\<close> and
  \<^verbatim>\<open>ratings\<close> (the global \<^verbatim>\<open>genres\<close> is primed: the name is taken by the field of
  \<open>Movie\<close>).
\<close>

record server_state =
  invertedIndex :: index
  movies :: "Movie list"
  genres' :: "string set"
  languages :: "string set"
  years :: "int set"
  ratings :: "real set"

section \<open>\<^verbatim>\<open>loadMovies\<close>\<close>

text \<open>
  The rebuild at the end of \<^verbatim>\<open>loadMovies\<close>: \<^verbatim>\<open>invertedIndex.clear()\<close>, then
  \<^verbatim>\<open>addMovie(i, movies[i])\<close> for \<open>i\<close> from 0 below \<^verbatim>\<open>movies.size()\<close>.
\<close>

definition build_index :: "Movie list \<Rightarrow> index" where
  "build_index ms = fold (\<lambda>i idx. addMovie (to_int i) (ms ! i) idx) [0..<length ms] Map.empty"

text \<open>
  \<^verbatim>\<open>std::stoi\<close>: leading whitespace, an optional sign, then decimal digits up to the
  first other character. \<open>None\<close> stands for the exception it throws: no digit
  (\<^verbatim>\<open>invalid_argument\<close>), or a value outside \<^verbatim>\<open>int\<close> (\<^verbatim>\<open>out_of_range\<close>).
\<close>

definition is_digit :: "char \<Rightarrow> bool" where
  "is_digit c = (c \<in> set ''0123456789'')"

definition digit_val :: "char \<Rightarrow> nat" where
  "digit_val c = of_char c - 48"

definition stoi :: "string \<Rightarrow> int option" where
  "stoi s =
     (let t = dropWhile isspace s;
          neg = (t \<noteq> [] \<and> hd t = CHR ''-'');
          u = (if t \<noteq> [] \<and> (hd t = CHR ''-'' \<or> hd t = CHR ''+'') then tl t else t);
          ds = takeWhile is_digit u;
          v = (if neg then - int (foldl (\<lambda>a c. 10 * a + digit_val c) 0 ds)
               else int (foldl (\<lambda>a c. 10 * a + digit_val c) 0 ds))
      in if ds = [] \<or> v < - (2 ^ 31) \<or> 2 ^ 31 \<le> v then None else Some v)"

text \<open>
  The field loop of \<^verbatim>\<open>processChunk\<close>: a double quote toggles \<^verbatim>\<open>inQuotes\<close> and is dropped,
  a comma outside quotes ends the field, the last field is added after the loop.
\<close>

fun csv_loop :: "string list \<Rightarrow> string \<Rightarrow> bool \<Rightarrow> string \<Rightarrow> string list" where
  "csv_loop flds current inQuotes [] = flds @ [current]"
| "csv_loop flds current inQuotes (c # cs) =
     (if c = CHR 0x22 then csv_loop flds current (\<not> inQuotes) cs
      else if c = CHR '','' \<and> \<not> inQuotes then csv_loop (flds @ [current]) [] inQuotes cs
      else csv_loop flds (current @ [c]) inQuotes cs)"

definition csv_fields :: "string \<Rightarrow> string list" where
  "csv_fields line = csv_loop [] [] False line"

text \<open>
  The genre loop: the pieces of field 7 between commas, each trimmed of spaces and
  double quotes at both ends, the empty ones dropped.
\<close>

definition trim_genre :: "string \<Rightarrow> string" where
  "trim_genre g =
     (let p = (\<lambda>c. c = CHR '' '' \<or> c = CHR 0x22)
      in rev (dropWhile p (rev (dropWhile p g))))"

definition parse_genres :: "string \<Rightarrow> string list" where
  "parse_genres field = filter (\<lambda>g. g \<noteq> []) (map trim_genre (getlines CHR '','' field))"

text \<open>The per-thread results \<^verbatim>\<open>threadMovies[i]\<close>, \<^verbatim>\<open>threadGenres[i]\<close> and so on.\<close>

record thread_result =
  tMovies :: "Movie list"
  tGenres :: "string set"
  tLanguages :: "string set"
  tYears :: "int set"
  tRatings :: "real set"

definition empty_result :: thread_result where
  "empty_result = \<lparr>tMovies = [], tGenres = {}, tLanguages = {}, tYears = {}, tRatings = {}\<rparr>"

text \<open>
  The body of the \<^verbatim>\<open>while\<close> loop for one line. \<^verbatim>\<open>std::stof\<close> is a parameter: \<open>stof s\<close>
  is the value of the float it returns, \<open>None\<close> when it throws. A throw of \<^verbatim>\<open>stoi\<close> or
  \<^verbatim>\<open>stof\<close> skips the line before its genres are recorded; a movie that fails the
  validation has its genres recorded all the same.
\<close>

definition process_line :: "(string \<Rightarrow> real option) \<Rightarrow> string \<Rightarrow> thread_result \<Rightarrow> thread_result" where
  "process_line stof line tr =
     (let flds = csv_fields line in
      if length flds < 9 then tr
      else
        (case (if flds ! 0 = [] then Some 0 else stoi (take 4 (flds ! 0))) of
           None \<Rightarrow> tr
         | Some y \<Rightarrow>
            (case (if flds ! 5 = [] then Some 0 else stof (flds ! 5)) of
               None \<Rightarrow> tr
             | Some r \<Rightarrow>
                (let gs = parse_genres (flds ! 7);
                     movie = \<lparr>id' = to_int (length (tMovies tr)), title = flds ! 1,
                              overview = flds ! 2, language = flds ! 6, genres = gs,
                              year = y, rating = r, posterUrl = flds ! 8\<rparr>;
                     tr1 = tr\<lparr>tGenres := tGenres tr \<union> set gs\<rparr>
                 in if title movie \<noteq> [] \<and> overview movie \<noteq> [] \<and> genres movie \<noteq> []
                       \<and> year movie \<noteq> 0 \<and> rating movie > 0
                    then tr1\<lparr>tMovies := tMovies tr1 @ [movie],
                             tYears := insert (year movie) (tYears tr1),
                             tRatings := insert (rating movie) (tRatings tr1),
                             tLanguages := insert (language movie) (tLanguages tr1)\<rparr>
                    else tr1))))"

text \<open>
  The lines one chunk delivers to the loop body. Stream positions are byte offsets into
  the file's content (no newline translation). \<open>chunk_loop endPos pos cur rest\<close> is at
  offset \<open>pos\<close> with \<open>rest\<close> still unread and \<open>cur\<close> the line read so far:
  \<^item> at a newline, \<^verbatim>\<open>tellg()\<close> is \<open>pos + 1\<close>; the line is processed when that is at most
    \<open>endPos\<close>, and the loop ends otherwise;
  \<^item> at the end of the file with characters read, \<^verbatim>\<open>getline\<close> succeeds and sets
    \<^verbatim>\<open>eofbit\<close>, \<^verbatim>\<open>tellg()\<close> returns -1, the line is processed, and the next \<^verbatim>\<open>getline\<close> fails;
  \<^item> at the end of the file with nothing read, \<^verbatim>\<open>getline\<close> fails.
\<close>

fun chunk_loop :: "nat \<Rightarrow> nat \<Rightarrow> string \<Rightarrow> string \<Rightarrow> string list" where
  "chunk_loop endPos pos cur [] = (if cur = [] then [] else [cur])"
| "chunk_loop endPos pos cur (c # cs) =
     (if c = CHR 0x0A then (if pos + 1 \<le> endPos then cur # chunk_loop endPos (pos + 1) [] cs else [])
      else chunk_loop endPos (pos + 1) (cur @ [c]) cs)"

text \<open>
  \<^verbatim>\<open>seekg(startPos)\<close> and, when \<open>startPos\<close> is not 0, the \<^verbatim>\<open>getline\<close> that skips the rest
  of the line the chunk starts in. When that line runs to the end of the file the stream
  is no longer good and the loop reads nothing.
\<close>

definition chunk_lines :: "string \<Rightarrow> nat \<Rightarrow> nat \<Rightarrow> string list" where
  "chunk_lines content startPos endPos =
     (if startPos = 0 then chunk_loop endPos 0 [] content
      else
        (let rest = drop startPos content;
             skipped = takeWhile (\<lambda>c. c \<noteq> CHR 0x0A) rest
         in if length skipped = length rest then []
            else chunk_loop endPos (startPos + length skipped + 1) []
                   (drop (length skipped + 1) rest)))"

definition processChunk :: "(string \<Rightarrow> real option) \<Rightarrow> string \<Rightarrow> nat \<Rightarrow> nat \<Rightarrow> thread_result" where
  "processChunk stof content startPos endPos =
     fold (process_line stof) (chunk_lines content startPos endPos) empty_result"

text \<open>
  What a call of \<^verbatim>\<open>loadMovies\<close> ends in: the early return after the message on
  \<^verbatim>\<open>std::cerr\<close>, the integer division by a zero thread count (undefined in C++), or the
  normal end after the message on \<^verbatim>\<open>std::cout\<close>. The first and the last carry the globals
  as the call leaves them.
\<close>

datatype load_result =
    OpenFailed string server_state
  | DivisionByZero
  | Loaded string server_state

text \<open>
  \<open>file\<close> is the file at \<^verbatim>\<open>filePath\<close>: \<open>None\<close> when it cannot be opened, its content
  otherwise (the worker threads open it again and are taken to read the same content).
\<close>

definition loadMovies ::
  "(string \<Rightarrow> real option) \<Rightarrow> string option \<Rightarrow> nat \<Rightarrow> server_state \<Rightarrow> load_result" where
  "loadMovies stof file numThreads st =
     (case file of
        None \<Rightarrow> OpenFailed ''Error: Unable to open file!'' st
      | Some content \<Rightarrow>
         if numThreads = 0 then DivisionByZero
         else
           (let fileSize = length content;
                chunkSize = fileSize div numThreads;
                results = map (\<lambda>i. processChunk stof content (i * chunkSize)
                                      (if i = numThreads - 1 then fileSize else i * chunkSize + chunkSize))
                            [0..<numThreads];
                ms = concat (map tMovies results)
            in Loaded (''Movies loaded and indexed successfully with '' @ to_string (int numThreads)
                         @ '' threads.'')
                 \<lparr>invertedIndex = build_index ms,
                  movies = ms,
                  genres' = \<Union> (set (map tGenres results)),
                  languages = \<Union> (set (map tLanguages results)),
                  years = \<Union> (set (map tYears results)),
                  ratings = \<Union> (set (map tRatings results))\<rparr>))"

text \<open>
  The rebuild as the sequence of calls that take the index mutex: \<^verbatim>\<open>clear()\<close>, then one
  \<^verbatim>\<open>addToIndex\<close> per key of every movie. Each call locks and unlocks on its own, so a
  lookup of another thread (\<^verbatim>\<open>searchByCategory\<close>, \<^verbatim>\<open>searchByKeywords\<close>, which take the
  same mutex) can run between any two of them.
\<close>

datatype index_op = Clear | Add string int

fun apply_op :: "index_op \<Rightarrow> index \<Rightarrow> index" where
  "apply_op Clear idx = Map.empty"
| "apply_op (Add key movieId) idx = addToIndex key movieId idx"

definition reload_ops :: "Movie list \<Rightarrow> index_op list" where
  "reload_ops ms =
     Clear # concat (map (\<lambda>i. map (\<lambda>key. Add key (to_int i)) (addMovie_keys (ms ! i))) [0..<length ms])"

text \<open>The index after the first \<open>n\<close> locked calls of the rebuild, started on \<open>old\<close>.\<close>

definition reload_state :: "index \<Rightarrow> Movie list \<Rightarrow> nat \<Rightarrow> index" where
  "reload_state old ms n = fold apply_op (take n (reload_ops ms)) old"

section \<open>\<^verbatim>\<open>handleClient\<close>\<close>

text \<open>
  \<^verbatim>\<open>std::string::find(pattern)\<close>: the first offset at which the pattern occurs, \<open>None\<close>
  for \<^verbatim>\<open>npos\<close>. \<open>find_from pattern s i\<close> searches \<open>s\<close>, whose first character is at
  offset \<open>i\<close> of the whole string.
\<close>

fun find_from :: "string \<Rightarrow> string \<Rightarrow> nat \<Rightarrow> nat option" where
  "find_from pattern [] i = (if pattern = [] then Some i else None)"
| "find_from pattern (c # cs) i =
     (if take (length pattern) (c # cs) = pattern then Some i else find_from pattern cs (Suc i))"

definition find_str :: "string \<Rightarrow> string \<Rightarrow> nat option" where
  "find_str s pattern = find_from pattern s 0"

text \<open>\<^verbatim>\<open>s.substr(pos)\<close>: throws \<^verbatim>\<open>std::out_of_range\<close> (\<open>None\<close>) when \<open>pos\<close> exceeds the size.\<close>

definition substr :: "string \<Rightarrow> nat \<Rightarrow> string option" where
  "substr s pos = (if pos \<le> length s then Some (drop pos s) else None)"

text \<open>
  The loop that fills \<^verbatim>\<open>params\<close>: the pairs between \<^verbatim>\<open>&\<close>, each stored under the text
  before its first \<^verbatim>\<open>=\<close>. Without \<^verbatim>\<open>=\<close>, \<^verbatim>\<open>eqPos\<close> is \<^verbatim>\<open>npos\<close>: the key is the whole
  pair, and \<^verbatim>\<open>npos + 1\<close> wraps to 0, so the value is the whole pair too. A later pair
  overwrites an earlier one with the same key.
\<close>

definition add_param :: "string \<Rightarrow> (string \<rightharpoonup> string) \<Rightarrow> (string \<rightharpoonup> string)" where
  "add_param pair params =
     (case find_str pair ''='' of
        None \<Rightarrow> params(pair \<mapsto> pair)
      | Some eqPos \<Rightarrow> params(take eqPos pair \<mapsto> drop (eqPos + 1) pair))"

definition parse_params :: "string \<Rightarrow> (string \<rightharpoonup> string)" where
  "parse_params body = fold add_param (getlines CHR ''&'' body) Map.empty"

text \<open>\<^verbatim>\<open>params[key]\<close>: a key that is absent is created with the empty string.\<close>

definition param :: "(string \<rightharpoonup> string) \<Rightarrow> string \<Rightarrow> string" where
  "param params key = (case params key of None \<Rightarrow> [] | Some v \<Rightarrow> v)"

text \<open>
  The step the POST path repeats for every filter and every keyword:
  \<^verbatim>\<open>if (results.empty()) results = xs; else results = intersectResults(results, xs);\<close>
\<close>

definition narrow :: "int set \<Rightarrow> int set \<Rightarrow> int set" where
  "narrow results xs = (if results = {} then xs else intersectResults results xs)"

text \<open>The genre block: \<^verbatim>\<open>+\<close> becomes a space, and the words are looked up one by one.\<close>

definition genre_results :: "index \<Rightarrow> string \<Rightarrow> int set" where
  "genre_results idx genreParam =
     (let genreInput = map (\<lambda>c. if c = CHR ''+'' then CHR '' '' else c) genreParam
      in fold (\<lambda>word genreResults. narrow genreResults (searchByCategory idx ''genre'' word))
           (stream_words genreInput) {})"

text \<open>The keyword block: the pieces between \<^verbatim>\<open>+\<close>, cleaned and lowered, the empty ones dropped.\<close>

definition post_keywords :: "string \<Rightarrow> string list" where
  "post_keywords kw =
     filter (\<lambda>keyword. keyword \<noteq> []) (map (\<lambda>keyword. toLower (cleanWord keyword)) (getlines CHR ''+'' kw))"

text \<open>
  The search of the POST path, from the declaration of \<^verbatim>\<open>results\<close> to the end of the
  keyword block. Its inner loop over the categories reads the index as the inner loop of
  \<^verbatim>\<open>searchByKeywords\<close> does.
\<close>

definition post_search :: "index \<Rightarrow> (string \<rightharpoonup> string) \<Rightarrow> int set" where
  "post_search idx params =
     (let results0 = {};
          results1 = (if param params ''genre'' \<noteq> []
                      then narrow results0 (genre_results idx (param params ''genre''))
                      else results0);
          results2 = (if param params ''year'' \<noteq> []
                      then narrow results1 (searchByCategory idx ''year'' (param params ''year''))
                      else results1);
          results3 = (if param params ''language'' \<noteq> []
                      then narrow results2 (searchByCategory idx ''language'' (param params ''language''))
                      else results2)
      in if param params ''keywords'' \<noteq> []
         then fold (\<lambda>word results. narrow results (keyResults idx word))
                (post_keywords (param params ''keywords'')) results3
         else results3)"

text \<open>
  What is sent, without the markup: the form with the three option lists, the result
  page (\<open>NoMatchPage\<close> is the page with "No movies match your search criteria.", a
  \<open>ResultPage\<close> lists the movies of the given identifiers under the given \<^verbatim>\<open>sort\<close>
  parameter), and the plain text of the SEARCH command.
\<close>

datatype response =
    FormPage "string set" "int set" "string set"
  | NoMatchPage
  | ResultPage "int set" string
  | NoMoviesFound
  | MovieBlocks "int set"

datatype action = Send response | CloseSocket

text \<open>
  A call either returns after its actions, or an exception of \<^verbatim>\<open>substr\<close> leaves it
  after them (nothing catches it).
\<close>

datatype outcome = Returned "action list" | Thrown "action list"

text \<open>What \<^verbatim>\<open>recv\<close> delivers: a count of 0 or less, or the bytes written to the buffer.\<close>

datatype received = NoData | Data string

definition get_path :: "server_state \<Rightarrow> action list" where
  "get_path st = [Send (FormPage (genres' st) (years st) (languages st))]"

text \<open>
  The body of a POST request: \<^verbatim>\<open>request.substr(request.find("\r\n\r\n") + 4)\<close>. The
  offset is 3 when nothing is found (\<^verbatim>\<open>npos + 4\<close> wraps around).
\<close>

definition post_body :: "string \<Rightarrow> string option" where
  "post_body request =
     substr request (case find_str request [CHR 0x0D, CHR 0x0A, CHR 0x0D, CHR 0x0A] of
                       None \<Rightarrow> 3 | Some p \<Rightarrow> p + 4)"

definition post_path :: "server_state \<Rightarrow> string \<Rightarrow> action list option" where
  "post_path st request =
     (case post_body request of
        None \<Rightarrow> None
      | Some body \<Rightarrow>
         (let params = parse_params body;
              results = post_search (invertedIndex st) params
          in Some [Send (if results = {} then NoMatchPage
                         else ResultPage results (param params ''sort''))]))"

definition search_keywords :: "string \<Rightarrow> string list" where
  "search_keywords text =
     filter (\<lambda>keyword. keyword \<noteq> []) (map (\<lambda>keyword. toLower (cleanWord keyword)) (stream_words text))"

definition search_path :: "server_state \<Rightarrow> string \<Rightarrow> action list option" where
  "search_path st request =
     (case substr request 7 of
        None \<Rightarrow> None
      | Some keywords \<Rightarrow>
         (let results = searchByKeywords (invertedIndex st) (search_keywords keywords)
          in Some [Send (if results = {} then NoMoviesFound else MovieBlocks results), CloseSocket]))"

text \<open>
  The conditions of the three \<^verbatim>\<open>if\<close> statements of \<^verbatim>\<open>handleClient\<close>:
  \<^verbatim>\<open>request.find("GET") != std::string::npos\<close>,
  \<^verbatim>\<open>request.find("POST") != std::string::npos\<close> and \<^verbatim>\<open>request.find("SEARCH") == 0\<close>.
\<close>

definition runs_get :: "string \<Rightarrow> bool" where
  "runs_get request = (find_str request ''GET'' \<noteq> None)"

definition runs_post :: "string \<Rightarrow> bool" where
  "runs_post request = (find_str request ''POST'' \<noteq> None)"

definition runs_search :: "string \<Rightarrow> bool" where
  "runs_search request = (find_str request ''SEARCH'' = Some 0)"

text \<open>
  The request is the content of the zero-initialised buffer up to its first zero byte
  (\<^verbatim>\<open>std::string request(buffer)\<close>; reads that fill all 4096 bytes are outside the model).
  The three tests are three separate \<^verbatim>\<open>if\<close> statements, run in this order; only the
  SEARCH block returns.
\<close>

definition handleClient :: "server_state \<Rightarrow> received \<Rightarrow> outcome" where
  "handleClient st r =
     (case r of
        NoData \<Rightarrow> Returned [CloseSocket]
      | Data bytes \<Rightarrow>
         (let request = takeWhile (\<lambda>c. c \<noteq> CHR 0x00) bytes;
              acts1 = (if runs_get request then get_path st else [])
          in case (if runs_post request then post_path st request else Some []) of
               None \<Rightarrow> Thrown acts1
             | Some acts2 \<Rightarrow>
                if runs_search request
                then (case search_path st request of
                        None \<Rightarrow> Thrown (acts1 @ acts2)
                      | Some acts3 \<Rightarrow> Returned (acts1 @ acts2 @ acts3))
                else Returned (acts1 @ acts2 @ [CloseSocket])))"

section \<open>The specification's token scheme\<close>

text \<open>The six categories the specification names for posting tokens.\<close>

definition categories :: "string list" where
  "categories = [''title'', ''overview'', ''genre'', ''language'', ''year'', ''rating'']"

text \<open>
  The specification's normalized values: trimmed of the fixed punctuation set and
  lower-cased. A value is normalized when trimming and lowering leave it as it is.
\<close>

definition normalized :: "string \<Rightarrow> bool" where
  "normalized v = (toLower (cleanWord v) = v)"

section \<open>The specification's keyword search\<close>

text \<open>
  The evaluation the specification describes, without the early exit: for each keyword
  the union, over the six categories of the specification, of the postings of the
  category's token for the normalized keyword (the token is spelled with the underscore
  of the index), and the intersection of these unions over all keywords in input order.
  An empty keyword sequence has the empty result.
\<close>

definition keyword_union :: "index \<Rightarrow> string \<Rightarrow> int set" where
  "keyword_union idx key =
     (\<Union>category \<in> set categories. postings idx (category @ ''_'' @ toLower (cleanWord key)))"

fun naive_keywords :: "index \<Rightarrow> string list \<Rightarrow> int set" where
  "naive_keywords idx [] = {}"
| "naive_keywords idx (key # keys) = fold (\<lambda>k acc. acc \<inter> keyword_union idx k) keys (keyword_union idx key)"

section \<open>The specification's reload discipline\<close>

text \<open>
  What a single atomic swap would give: whenever a lookup runs during a reload, the
  posting set it reads for a token is the one of the index before the reload or the one
  of the rebuilt index.
\<close>

definition swap_atomic :: "index \<Rightarrow> Movie list \<Rightarrow> bool" where
  "swap_atomic old ms =
     (\<forall>n token. postings (reload_state old ms n) token = postings old token
                \<or> postings (reload_state old ms n) token = postings (build_index ms) token)"

section \<open>An example catalog\<close>

definition inception :: Movie where
  "inception = \<lparr>id' = 0, title = ''Inception'', overview = ''A thief who steals corporate secrets'',
     language = ''en'', genres = [''Science Fiction'', ''Action''], year = 2010, rating = 9227469 / 1048576,
     posterUrl = ''inception.jpg''\<rparr>"

text \<open>
  The rating of \<open>inception\<close> is the \<^verbatim>\<open>float\<close> nearest to 8.8, which is
  \<open>9227469 / 2^20\<close>.

  A catalog file with a header line and the record of \<open>inception\<close>, a \<^verbatim>\<open>stof\<close> that
  reads the one rating text of that file, and the globals before and after loading it.
\<close>

definition example_csv :: string where
  "example_csv =
     ''Release_Date,Title,Overview,Popularity,Vote_Count,Vote_Average,Original_Language,Genre,Poster_Url''
     @ [CHR 0x0A]
     @ ''2010-07-16,Inception,A thief who steals corporate secrets,29.1,30000,8.8,en,''
     @ [CHR 0x22] @ ''Science Fiction, Action'' @ [CHR 0x22] @ '',inception.jpg'' @ [CHR 0x0A]"

definition example_stof :: "string \<Rightarrow> real option" where
  "example_stof s = (if s = ''8.8'' then Some (9227469 / 1048576) else None)"

definition initial_state :: server_state where
  "initial_state = \<lparr>invertedIndex = Map.empty, movies = [], genres' = {}, languages = {},
     years = {}, ratings = {}\<rparr>"

definition example_state :: server_state where
  "example_state = \<lparr>invertedIndex = build_index [inception], movies = [inception],
     genres' = {''Science Fiction'', ''Action''}, languages = {''en''}, years = {2010},
     ratings = {9227469 / 1048576}\<rparr>"

text \<open>
  An item whose genre and language carry punctuation at their ends, as the loader keeps
  them (it trims spaces and double quotes only).
\<close>

definition tv_movie :: Movie where
  "tv_movie = \<lparr>id' = 0, title = ''Pilot'', overview = ''The first episode'',
     language = ''(en)'', genres = [''(TV)''], year = 2001, rating = 7,
     posterUrl = ''pilot.jpg''\<rparr>"

text \<open>The line end of the request head.\<close>

definition crlf :: string where
  "crlf = [CHR 0x0D, CHR 0x0A]"

section \<open>Properties of the inverted index\<close>

subsection \<open>Lower case and decimal strings\<close>

lemma tolower_idem: "tolower (tolower c) = tolower c"
  by (simp add: tolower_def)

lemma toLower_idem: "toLower (toLower s) = toLower s"
  by (simp add: toLower_def tolower_idem)

lemma digit_all:
  "(\<forall>d<10. P d) \<longleftrightarrow> P 0 \<and> P 1 \<and> P 2 \<and> P 3 \<and> P 4 \<and> P 5 \<and> P 6 \<and> P 7 \<and> P 8 \<and> P (9::nat)"
  by (simp add: eval_nat_numeral All_less_Suc conj_ac)

lemma digit_char_is_digit: "d < 10 \<Longrightarrow> is_digit (digit_char d)"
proof -
  have "\<forall>d<10. is_digit (digit_char d)"
    unfolding digit_all by (simp add: is_digit_def digit_char_def)
  then show "d < 10 \<Longrightarrow> is_digit (digit_char d)" by simp
qed

lemma digit_val_digit_char: "d < 10 \<Longrightarrow> digit_val (digit_char d) = d"
proof -
  have "\<forall>d<10. digit_val (digit_char d) = d"
    unfolding digit_all by (simp add: digit_val_def digit_char_def)
  then show "d < 10 \<Longrightarrow> digit_val (digit_char d) = d" by simp
qed

lemma tolower_digit: "is_digit c \<Longrightarrow> tolower c = c"
proof -
  have "\<forall>c \<in> set ''0123456789''. tolower c = c"
    by (simp add: tolower_def)
  then show "is_digit c \<Longrightarrow> tolower c = c"
    unfolding is_digit_def by blast
qed

lemma digits10_digits: "c \<in> set (digits10 n) \<Longrightarrow> is_digit c"
proof (induction n arbitrary: c rule: digits10.induct)
  case (1 n)
  show ?case
  proof (cases "n < 10")
    case True
    with "1.prems" show ?thesis
      by (simp add: digits10.simps [of n] digit_char_is_digit)
  next
    case False
    with "1.prems" have "c \<in> set (digits10 (n div 10)) \<or> c = digit_char (n mod 10)"
      by (auto simp: digits10.simps [of n])
    with False "1.IH" show ?thesis
      by (auto simp: digit_char_is_digit)
  qed
qed

lemma digits10_value: "foldl (\<lambda>a c. 10 * a + digit_val c) 0 (digits10 n) = n"
proof (induction n rule: digits10.induct)
  case (1 n)
  show ?case
  proof (cases "n < 10")
    case True
    then show ?thesis
      by (simp add: digits10.simps [of n] digit_val_digit_char)
  next
    case False
    with "1.IH" show ?thesis
      by (simp add: digits10.simps [of n] digit_val_digit_char)
  qed
qed

lemma digits10_inj: "digits10 a = digits10 b \<Longrightarrow> a = b"
  by (metis digits10_value)

lemma minus_not_digit: "\<not> is_digit CHR ''-''"
  by (simp add: is_digit_def)

lemma to_string_inj: "to_string a = to_string b \<Longrightarrow> a = b"
proof -
  assume eq: "to_string a = to_string b"
  have no_minus: "\<And>n xs. digits10 n \<noteq> CHR ''-'' # xs"
    by (metis digits10_digits list.set_intros(1) minus_not_digit)
  show "a = b"
  proof (cases "a < 0")
    case True
    note a = this
    show ?thesis
    proof (cases "b < 0")
      case True
      with a eq have "digits10 (nat (- a)) = digits10 (nat (- b))"
        by (simp add: to_string_def)
      then have "nat (- a) = nat (- b)" by (rule digits10_inj)
      with a True show ?thesis by simp
    next
      case False
      with a eq no_minus [of "nat b" "digits10 (nat (- a))"] show ?thesis
        by (simp add: to_string_def)
    qed
  next
    case False
    note a = this
    show ?thesis
    proof (cases "b < 0")
      case True
      with a eq no_minus [of "nat a" "digits10 (nat (- b))"] show ?thesis
        by (simp add: to_string_def)
    next
      case False
      with a eq have "digits10 (nat a) = digits10 (nat b)"
        by (simp add: to_string_def)
      then have "nat a = nat b" by (rule digits10_inj)
      with a False show ?thesis by simp
    qed
  qed
qed

lemma toLower_to_string: "toLower (to_string k) = to_string k"
proof -
  have d: "\<And>n. map tolower (digits10 n) = digits10 n"
    by (rule map_idI) (simp add: digits10_digits tolower_digit)
  have m: "tolower CHR ''-'' = CHR ''-''"
    by (simp add: tolower_def)
  show ?thesis
    by (simp add: to_string_def toLower_def d m)
qed

lemma to_int_small: "n < 2 ^ 31 \<Longrightarrow> to_int n = int n"
  by (simp add: to_int_def)

subsection \<open>Trimmed and lower-cased words\<close>

lemma punct_tolower: "tolower c \<in> set clean_chars \<longleftrightarrow> c \<in> set clean_chars"
  by (simp add: tolower_def clean_chars_def)

lemma cleanWord_toLower: "cleanWord (toLower w) = toLower (cleanWord w)"
proof -
  have comp: "(\<lambda>c. c \<in> set clean_chars) \<circ> tolower = (\<lambda>c. c \<in> set clean_chars)"
    by (rule ext) (simp add: punct_tolower)
  have d: "dropWhile (\<lambda>c. c \<in> set clean_chars) (map tolower xs)
             = map tolower (dropWhile (\<lambda>c. c \<in> set clean_chars) xs)" for xs
    by (simp add: dropWhile_map comp)
  show ?thesis
    by (simp add: cleanWord_def toLower_def d Let_def rev_map)
qed

lemma dropWhile_keeps_last:
  "dropWhile P xs \<noteq> [] \<Longrightarrow> last (dropWhile P xs) = last xs"
  by (induction xs) (auto split: if_splits)

lemma clean_fixed:
  assumes "w \<noteq> []" and "hd w \<notin> set clean_chars" and "last w \<notin> set clean_chars"
  shows "cleanWord w = w"
proof -
  from assms(1,2) have front: "dropWhile (\<lambda>c. c \<in> set clean_chars) w = w"
    by (cases w) auto
  from assms(1,3) have suffix: "dropWhile (\<lambda>c. c \<in> set clean_chars) (rev w) = rev w"
    by (cases "rev w") (auto simp add: hd_rev)
  from assms(1) show ?thesis
    by (simp add: cleanWord_def front suffix)
qed

lemma cleanWord_edges:
  assumes "cleanWord w \<noteq> []"
  shows "hd (cleanWord w) \<notin> set clean_chars \<and> last (cleanWord w) \<notin> set clean_chars"
proof -
  let ?P = "\<lambda>c. c \<in> set clean_chars"
  let ?clean = "dropWhile ?P w"
  let ?d = "dropWhile ?P (rev ?clean)"
  from assms have clean: "?clean \<noteq> []"
    by (auto simp add: cleanWord_def Let_def split: if_splits)
  with assms have r: "cleanWord w = rev ?d" and d: "?d \<noteq> []"
    by (simp_all add: cleanWord_def Let_def)
  from clean have "\<not> ?P (hd ?clean)"
    by (rule hd_dropWhile)
  moreover from d have "last ?d = last (rev ?clean)"
    by (rule dropWhile_keeps_last)
  ultimately have "\<not> ?P (last ?d)"
    using clean by (simp add: last_rev)
  moreover from d have "\<not> ?P (hd ?d)"
    by (rule hd_dropWhile)
  ultimately show ?thesis
    using d by (simp add: r hd_rev last_rev)
qed

lemma cleanWord_idem: "cleanWord (cleanWord w) = cleanWord w"
proof (cases "cleanWord w = []")
  case True
  then show ?thesis by (simp add: cleanWord_def)
next
  case False
  with cleanWord_edges [OF False] show ?thesis
    by (intro clean_fixed) simp_all
qed

lemma normalized_word: "normalized (toLower (cleanWord w))"
  by (simp add: normalized_def cleanWord_toLower cleanWord_idem toLower_idem)

lemma digit_not_punct: "is_digit c \<Longrightarrow> c \<notin> set clean_chars"
  by (auto simp add: is_digit_def clean_chars_def)

lemma digits10_not_Nil: "digits10 n \<noteq> []"
  by (subst digits10.simps) simp

lemma digits10_no_punct: "c \<in> set (digits10 n) \<Longrightarrow> c \<notin> set clean_chars"
  by (rule digit_not_punct) (rule digits10_digits)

lemma normalized_to_string: "normalized (to_string i)"
proof -
  have hd: "hd (digits10 n) \<notin> set clean_chars" for n
    using digits10_not_Nil [of n] by (intro digits10_no_punct [of _ n]) simp
  have last: "last (digits10 n) \<notin> set clean_chars" for n
    using digits10_not_Nil [of n] by (intro digits10_no_punct [of _ n]) simp
  have minus: "CHR ''-'' \<notin> set clean_chars"
    by (simp add: clean_chars_def)
  have "cleanWord (to_string i) = to_string i"
    by (rule clean_fixed) (simp_all add: to_string_def digits10_not_Nil hd last minus)
  then show ?thesis
    by (simp add: normalized_def toLower_to_string)
qed

subsection \<open>Posting sets after insertions\<close>

lemma postings_addToIndex:
  "postings (addToIndex k i idx) key = (if key = k then insert i (postings idx k) else postings idx key)"
  by (simp add: postings_def addToIndex_def)

lemma dom_addToIndex: "dom (addToIndex k i idx) = insert k (dom idx)"
  by (simp add: addToIndex_def)

lemma postings_fold_addToIndex:
  "postings (fold (\<lambda>k. addToIndex k i) ks idx) key =
     postings idx key \<union> (if key \<in> set ks then {i} else {})"
  by (induction ks arbitrary: idx) (auto simp: postings_addToIndex)

lemma dom_fold_addToIndex: "dom (fold (\<lambda>k. addToIndex k i) ks idx) = dom idx \<union> set ks"
  by (induction ks arbitrary: idx) (auto simp: dom_addToIndex)

lemma postings_addMovie:
  "postings (addMovie i m idx) key =
     postings idx key \<union> (if key \<in> set (addMovie_keys m) then {i} else {})"
  by (simp add: addMovie_def postings_fold_addToIndex)

lemma dom_addMovie: "dom (addMovie i m idx) = dom idx \<union> set (addMovie_keys m)"
  by (simp add: addMovie_def dom_fold_addToIndex)

lemma postings_fold_addMovie:
  "postings (fold (\<lambda>i idx. addMovie (to_int i) (ms ! i) idx) js idx) key =
     postings idx key \<union> {to_int i | i. i \<in> set js \<and> key \<in> set (addMovie_keys (ms ! i))}"
  by (induction js arbitrary: idx) (auto simp: postings_addMovie)

lemma dom_fold_addMovie:
  "dom (fold (\<lambda>i idx. addMovie (to_int i) (ms ! i) idx) js idx) =
     dom idx \<union> (\<Union>i \<in> set js. set (addMovie_keys (ms ! i)))"
  by (induction js arbitrary: idx) (auto simp: dom_addMovie)

lemma postings_build_index:
  "postings (build_index ms) key = {to_int i | i. i < length ms \<and> key \<in> set (addMovie_keys (ms ! i))}"
  by (simp add: build_index_def postings_fold_addMovie) (simp add: postings_def)

lemma dom_build_index:
  "dom (build_index ms) = (\<Union>i \<in> {..<length ms}. set (addMovie_keys (ms ! i)))"
  by (auto simp add: build_index_def dom_fold_addMovie)

lemma searchByCategory_postings:
  "searchByCategory idx category val = postings idx (category @ ''_'' @ toLower val)"
  by (simp add: searchByCategory_def postings_def Let_def split: option.split)


subsection \<open>The example catalog\<close>

lemmas eval_text = to_string_def digits10.simps digit_char_def toLower_def tolower_def
  stream_words_def isspace_def processText_def cleanWord_def clean_chars_def trunc_int_def

lemma addMovie_keys_inception:
  "addMovie_keys inception =
     [''genre_science'', ''genre_fiction'', ''genre_action'', ''year_2010'', ''language_en'',
      ''rating_8'', ''rating_9'', ''rating_10'', ''title_inception'', ''overview_a'',
      ''overview_thief'', ''overview_who'', ''overview_steals'', ''overview_corporate'',
      ''overview_secrets'']"
  by (simp add: addMovie_keys_def inception_def eval_text)

lemma postings_single:
  "postings (build_index [m]) key = (if key \<in> set (addMovie_keys m) then {0} else {})"
  by (auto simp add: postings_build_index to_int_def)

lemma dom_single: "dom (build_index [m]) = set (addMovie_keys m)"
  unfolding dom_build_index by auto

lemma postings_inception:
  "postings (build_index [inception]) key = (if key \<in> set (addMovie_keys inception) then {0} else {})"
  by (rule postings_single)

lemma addMovie_keys_tv_movie:
  "addMovie_keys tv_movie =
     [''genre_(tv)'', ''year_2001'', ''language_(en)'', ''rating_7'', ''rating_8'', ''rating_9'',
      ''rating_10'', ''title_pilot'', ''overview_the'', ''overview_first'', ''overview_episode'']"
  by (simp add: addMovie_keys_def tv_movie_def eval_text)

lemma reload_ops_inception:
  "reload_ops [inception] = Clear # map (\<lambda>key. Add key 0) (addMovie_keys inception)"
  by (simp add: reload_ops_def to_int_def)

lemma rating_key_iff:
  "''rating_'' @ to_string k \<in> set (addMovie_keys m) \<longleftrightarrow> trunc_int (rating m) \<le> k \<and> k \<le> 10"
proof -
  have "''rating_'' @ to_string k \<in> set (addMovie_keys m)
      \<longleftrightarrow> to_string k \<in> to_string ` {trunc_int (rating m)..10}"
    by (auto simp add: addMovie_keys_def processText_def)
  also have "\<dots> \<longleftrightarrow> k \<in> {trunc_int (rating m)..10}"
    by (auto dest: to_string_inj)
  finally show ?thesis by simp
qed

lemma keyResults_postings:
  "keyResults idx k = (\<Union>category \<in> set category_prefixes. postings idx (category @ k))"
  by (auto simp add: keyResults_def category_prefixes_def postings_def Let_def split: option.splits)

lemma searchByKeywords_Cons:
  "searchByKeywords idx (key # keys) =
     (if keyResults idx (toLower (cleanWord key)) = {} then {}
      else keywords_loop idx keys (keyResults idx (toLower (cleanWord key))) False)"
  by (simp add: searchByKeywords_def Let_def)

lemmas eval_search = searchByKeywords_Cons keyResults_postings category_prefixes_def
  intersectResults_def postings_inception addMovie_keys_inception cleanWord_def clean_chars_def
  toLower_def tolower_def Let_def

lemmas eval_params = parse_params_def getlines_def add_param_def find_str_def param_def

lemma year_key_present: "''year_2010'' \<in> dom (build_index [inception])"
  unfolding dom_build_index by (auto simp add: addMovie_keys_inception)

lemma year_posting: "postings (build_index [inception]) ''year_2010'' = {0}"
  by (simp add: postings_inception addMovie_keys_inception)

lemma year_entry: "build_index [inception] ''year_2010'' = Some {0}"
  using year_key_present year_posting by (auto simp add: postings_def)

lemma load_example:
  "loadMovies example_stof (Some example_csv) 1 initial_state
     = Loaded ''Movies loaded and indexed successfully with 1 threads.'' example_state"
  by (simp add: loadMovies_def example_csv_def example_stof_def example_state_def inception_def
      processChunk_def chunk_lines_def process_line_def csv_fields_def parse_genres_def
      trim_genre_def getlines_def stoi_def is_digit_def digit_val_def isspace_def empty_result_def
      to_int_def to_string_def digits10.simps digit_char_def Let_def)

lemma search_example:
  "searchByKeywords (build_index [inception]) [''Inception'', ''2099''] = {}"
  by (simp add: eval_search)

lemma search_example_found:
  "searchByKeywords (build_index [inception]) [''Inception'', ''thief''] = {0}"
  by (simp add: eval_search)

lemma body_example:
  "post_body (''POST / HTTP/1.1'' @ crlf @ crlf @ ''genre=&year=&language=&keywords='')
     = Some ''genre=&year=&language=&keywords=''"
  by (simp add: post_body_def substr_def find_str_def crlf_def)

lemma params_example:
  "param (parse_params ''genre=&year=&language=&keywords='') ''genre'' = []
   \<and> param (parse_params ''genre=&year=&language=&keywords='') ''year'' = []
   \<and> param (parse_params ''genre=&year=&language=&keywords='') ''language'' = []
   \<and> param (parse_params ''genre=&year=&language=&keywords='') ''keywords'' = []"
  by (simp add: eval_params)

subsection \<open>The test of the SEARCH block\<close>

lemma find_from_ge: "find_from pattern s i = Some j \<Longrightarrow> i \<le> j"
proof (induction s arbitrary: i)
  case Nil
  then show ?case by (simp split: if_splits)
next
  case (Cons c cs)
  show ?case
  proof (cases "take (length pattern) (c # cs) = pattern")
    case True
    with Cons.prems show ?thesis by simp
  next
    case False
    with Cons.prems have "find_from pattern cs (Suc i) = Some j" by simp
    then have "Suc i \<le> j" by (rule Cons.IH)
    then show ?thesis by simp
  qed
qed

lemma find_str_0: "find_str s pattern = Some 0 \<longleftrightarrow> take (length pattern) s = pattern"
proof (cases s)
  case Nil
  then show ?thesis by (auto simp add: find_str_def)
next
  case (Cons c cs)
  show ?thesis
  proof (cases "take (length pattern) (c # cs) = pattern")
    case True
    with Cons show ?thesis by (simp add: find_str_def)
  next
    case False
    have "find_from pattern cs (Suc 0) \<noteq> Some 0"
      using find_from_ge [of pattern cs "Suc 0" 0] by auto
    with False Cons show ?thesis by (simp add: find_str_def)
  qed
qed

lemma runs_search_prefix: "runs_search request \<longleftrightarrow> take 6 request = ''SEARCH''"
proof -
  have len: "length ''SEARCH'' = (6::nat)"
    by simp
  show ?thesis
    unfolding runs_search_def find_str_0 len ..
qed

subsection \<open>The shape of the keys\<close>

lemma shapeI:
  "category \<in> set categories \<Longrightarrow> toLower v = v \<Longrightarrow>
     (category \<noteq> ''genre'' \<and> category \<noteq> ''language'' \<longrightarrow> normalized v) \<Longrightarrow>
     key = category @ ''_'' @ v \<Longrightarrow>
     \<exists>category \<in> set categories. \<exists>v. key = category @ ''_'' @ v \<and> toLower v = v
        \<and> (category \<noteq> ''genre'' \<and> category \<noteq> ''language'' \<longrightarrow> normalized v)"
  by blast

lemma genre_keys:
  "key \<in> set (concat (map (\<lambda>genre. map (\<lambda>word. ''genre_'' @ toLower word) (stream_words genre)) gs))
     \<Longrightarrow> \<exists>w. key = ''genre'' @ ''_'' @ toLower w"
  by auto

lemma rating_keys:
  "key \<in> set (map (\<lambda>i. ''rating_'' @ to_string i) xs) \<Longrightarrow> \<exists>i. key = ''rating'' @ ''_'' @ to_string i"
  by auto

lemma title_keys:
  "key \<in> set (processText text ''title_'') \<Longrightarrow> \<exists>w. key = ''title'' @ ''_'' @ toLower (cleanWord w)"
  by (auto simp add: processText_def)

lemma overview_keys:
  "key \<in> set (processText text ''overview_'') \<Longrightarrow> \<exists>w. key = ''overview'' @ ''_'' @ toLower (cleanWord w)"
  by (auto simp add: processText_def)

lemma key_shape:
  assumes "key \<in> set (addMovie_keys m)"
  shows "\<exists>category \<in> set categories. \<exists>v. key = category @ ''_'' @ v \<and> toLower v = v
           \<and> (category \<noteq> ''genre'' \<and> category \<noteq> ''language'' \<longrightarrow> normalized v)"
proof -
  from assms have
    "key \<in> set (concat (map (\<lambda>genre. map (\<lambda>word. ''genre_'' @ toLower word) (stream_words genre)) (genres m)))
     \<or> key \<in> set [''year_'' @ to_string (year m)]
     \<or> key \<in> set [''language_'' @ toLower (language m)]
     \<or> key \<in> set (map (\<lambda>i. ''rating_'' @ to_string i) [trunc_int (rating m)..10])
     \<or> key \<in> set (processText (title m) ''title_'')
     \<or> key \<in> set (processText (overview m) ''overview_'')"
    unfolding addMovie_keys_def set_append Un_iff .
  then show ?thesis
  proof (elim disjE)
    assume "key \<in> set (concat (map (\<lambda>genre. map (\<lambda>word. ''genre_'' @ toLower word) (stream_words genre)) (genres m)))"
    then obtain w where "key = ''genre'' @ ''_'' @ toLower w"
      using genre_keys by blast
    then show ?thesis
      by (rule shapeI [rotated 3]) (simp_all add: categories_def toLower_idem)
  next
    assume "key \<in> set [''year_'' @ to_string (year m)]"
    then have "key = ''year'' @ ''_'' @ to_string (year m)" by simp
    then show ?thesis
      by (rule shapeI [rotated 3]) (simp_all add: categories_def toLower_to_string normalized_to_string)
  next
    assume "key \<in> set [''language_'' @ toLower (language m)]"
    then have "key = ''language'' @ ''_'' @ toLower (language m)" by simp
    then show ?thesis
      by (rule shapeI [rotated 3]) (simp_all add: categories_def toLower_idem)
  next
    assume "key \<in> set (map (\<lambda>i. ''rating_'' @ to_string i) [trunc_int (rating m)..10])"
    then obtain i where "key = ''rating'' @ ''_'' @ to_string i"
      using rating_keys by blast
    then show ?thesis
      by (rule shapeI [rotated 3]) (simp_all add: categories_def toLower_to_string normalized_to_string)
  next
    assume "key \<in> set (processText (title m) ''title_'')"
    then obtain w where "key = ''title'' @ ''_'' @ toLower (cleanWord w)"
      using title_keys by blast
    then show ?thesis
      by (rule shapeI [rotated 3]) (simp_all add: categories_def toLower_idem normalized_word)
  next
    assume "key \<in> set (processText (overview m) ''overview_'')"
    then obtain w where "key = ''overview'' @ ''_'' @ toLower (cleanWord w)"
      using overview_keys by blast
    then show ?thesis
      by (rule shapeI [rotated 3]) (simp_all add: categories_def toLower_idem normalized_word)
  qed
qed

subsection \<open>The keyword loop\<close>

lemma keyResults_union: "keyResults idx (toLower (cleanWord key)) = keyword_union idx key"
  by (simp add: keyResults_postings keyword_union_def category_prefixes_def categories_def)

lemma intersectResults_Int: "intersectResults a b = a \<inter> b"
  by (auto simp add: intersectResults_def)

lemma fold_Int_empty: "fold (\<lambda>k acc. acc \<inter> f k) ks {} = {}"
  by (induction ks) simp_all

lemma keywords_loop_fold:
  "keywords_loop idx keys cur False = fold (\<lambda>k acc. acc \<inter> keyword_union idx k) keys cur"
proof (induction keys arbitrary: cur)
  case Nil
  show ?case by simp
next
  case (Cons key keys)
  show ?case
  proof (cases "cur \<inter> keyword_union idx key = {}")
    case True
    then show ?thesis
      by (simp add: keyResults_union intersectResults_Int fold_Int_empty)
  next
    case False
    then show ?thesis
      by (simp add: keyResults_union intersectResults_Int Cons.IH)
  qed
qed

lemma searchByKeywords_naive: "searchByKeywords idx keys = naive_keywords idx keys"
proof (cases keys)
  case Nil
  then show ?thesis by (simp add: searchByKeywords_def)
next
  case (Cons key keys')
  show ?thesis
  proof (cases "keyword_union idx key = {}")
    case True
    with Cons show ?thesis
      by (simp add: searchByKeywords_def keyResults_union fold_Int_empty)
  next
    case False
    with Cons show ?thesis
      by (simp add: searchByKeywords_def keyResults_union keywords_loop_fold)
  qed
qed

lemma naive_keywords_append_empty:
  "keys \<noteq> [] \<Longrightarrow> naive_keywords idx keys = {} \<Longrightarrow> naive_keywords idx (keys @ rest) = {}"
  by (cases keys) (simp_all add: fold_Int_empty)

lemma naive_keywords_Inter:
  "keys \<noteq> [] \<Longrightarrow> naive_keywords idx keys = (\<Inter>k \<in> set keys. keyword_union idx k)"
proof -
  have "fold (\<lambda>k acc. acc \<inter> keyword_union idx k) ks a = a \<inter> (\<Inter>k \<in> set ks. keyword_union idx k)" for ks a
    by (induction ks arbitrary: a) auto
  then show "keys \<noteq> [] \<Longrightarrow> ?thesis"
    by (cases keys) auto
qed

subsection \<open>Identifiers stay inside the catalog\<close>

lemma loadMovies_Loaded:
  "loadMovies stof file numThreads st = Loaded msg st' \<Longrightarrow> invertedIndex st' = build_index (movies st')"
  by (auto simp add: loadMovies_def Let_def split: option.splits if_splits)

lemma build_index_ids:
  assumes "length ms \<le> 2 ^ 31"
  shows "postings (build_index ms) key \<subseteq> {0..<int (length ms)}"
proof
  fix x
  assume "x \<in> postings (build_index ms) key"
  then obtain i where i: "x = to_int i" "i < length ms"
    unfolding postings_build_index by blast
  with assms have "to_int i = int i"
    by (simp add: to_int_small)
  with i show "x \<in> {0..<int (length ms)}"
    by simp
qed

lemma keyResults_subset:
  "(\<And>key. postings idx key \<subseteq> A) \<Longrightarrow> keyResults idx k \<subseteq> A"
  by (simp add: keyResults_def category_prefixes_def Let_def)

lemma keywords_loop_subset:
  assumes "\<And>key. postings idx key \<subseteq> A"
  shows "cur \<subseteq> A \<Longrightarrow> keywords_loop idx keys cur isFirst \<subseteq> A"
proof (induction keys arbitrary: cur isFirst)
  case Nil
  then show ?case by simp
next
  case (Cons key keys)
  have kr: "keyResults idx (toLower (cleanWord key)) \<subseteq> A"
    using assms by (rule keyResults_subset)
  let ?next = "if isFirst then keyResults idx (toLower (cleanWord key))
               else intersectResults cur (keyResults idx (toLower (cleanWord key)))"
  have "?next \<subseteq> A"
    using kr by (auto simp add: intersectResults_def)
  then have "keywords_loop idx keys ?next False \<subseteq> A"
    by (rule Cons.IH)
  then show ?case
    by (simp add: Let_def)
qed

lemma narrow_subset: "r \<subseteq> A \<Longrightarrow> x \<subseteq> A \<Longrightarrow> narrow r x \<subseteq> A"
  by (auto simp add: narrow_def intersectResults_def)

lemma fold_narrow_subset:
  "(\<And>w. f w \<subseteq> A) \<Longrightarrow> r \<subseteq> A \<Longrightarrow> fold (\<lambda>w results. narrow results (f w)) ws r \<subseteq> A"
  by (induction ws arbitrary: r) (simp_all add: narrow_subset)

lemma if_subset: "(c \<Longrightarrow> x \<subseteq> A) \<Longrightarrow> (\<not> c \<Longrightarrow> y \<subseteq> A) \<Longrightarrow> (if c then x else y) \<subseteq> A"
  by simp

lemma post_search_subset:
  assumes "\<And>key. postings idx key \<subseteq> A"
  shows "post_search idx params \<subseteq> A"
proof -
  have cat: "searchByCategory idx c v \<subseteq> A" for c v
    using assms by (simp add: searchByCategory_postings)
  have genre: "genre_results idx g \<subseteq> A" for g
    unfolding genre_results_def Let_def by (rule fold_narrow_subset) (simp_all add: cat)
  have kw: "fold (\<lambda>word results. narrow results (keyResults idx word)) ws r \<subseteq> A" if "r \<subseteq> A" for ws r
    using _ that by (rule fold_narrow_subset) (rule keyResults_subset, rule assms)
  show ?thesis
    unfolding post_search_def Let_def
    by (intro if_subset kw narrow_subset cat genre empty_subsetI)
qed

subsection \<open>The rebuild, one locked call at a time\<close>

lemma fold_adds:
  "fold apply_op (map (\<lambda>key. Add key i) ks) idx = fold (\<lambda>key. addToIndex key i) ks idx"
  by (induction ks arbitrary: idx) simp_all

lemma fold_reload_ops:
  "fold apply_op (concat (map (\<lambda>i. map (\<lambda>key. Add key (to_int i)) (addMovie_keys (ms ! i))) js)) idx
     = fold (\<lambda>i idx. addMovie (to_int i) (ms ! i) idx) js idx"
  by (induction js arbitrary: idx) (simp_all add: fold_adds addMovie_def)

lemma reload_complete: "reload_state old ms (length (reload_ops ms)) = build_index ms"
  by (simp add: reload_state_def) (simp add: reload_ops_def fold_reload_ops build_index_def)

lemma postings_fold_ops:
  "Clear \<notin> set ops \<Longrightarrow>
     postings (fold apply_op ops idx) token = postings idx token \<union> {i. Add token i \<in> set ops}"
proof (induction ops arbitrary: idx)
  case Nil
  show ?case by simp
next
  case (Cons op ops)
  then obtain key i where op: "op = Add key i"
    by (cases op) auto
  from Cons.prems have "Clear \<notin> set ops" by simp
  then have "postings (fold apply_op ops (addToIndex key i idx)) token
      = postings (addToIndex key i idx) token \<union> {i. Add token i \<in> set ops}"
    by (rule Cons.IH)
  then show ?case
    by (auto simp add: op postings_addToIndex)
qed

lemma reload_partial:
  assumes "0 < n"
  shows "postings (reload_state old ms n) token \<subseteq> postings (build_index ms) token"
proof -
  define adds where
    "adds = concat (map (\<lambda>i. map (\<lambda>key. Add key (to_int i)) (addMovie_keys (ms ! i))) [0..<length ms])"
  have no_clear: "Clear \<notin> set adds"
    by (auto simp add: adds_def)
  then have no_clear': "Clear \<notin> set (take (n - 1) adds)"
    by (auto dest: in_set_takeD)
  from assms obtain k where n: "n = Suc k"
    by (cases n) auto
  have "reload_state old ms n = fold apply_op (take (n - 1) adds) Map.empty"
    by (simp add: reload_state_def reload_ops_def adds_def n)
  then have "postings (reload_state old ms n) token = {i. Add token i \<in> set (take (n - 1) adds)}"
    using postings_fold_ops [OF no_clear', of Map.empty token] by (simp add: postings_def)
  moreover have "build_index ms = fold apply_op adds Map.empty"
    by (simp add: adds_def fold_reload_ops build_index_def)
  then have "postings (build_index ms) token = {i. Add token i \<in> set adds}"
    using postings_fold_ops [OF no_clear, of Map.empty token] by (simp add: postings_def)
  ultimately show ?thesis
    by (auto dest: in_set_takeD)
qed

lemma reload_step:
  "n < length (reload_ops ms) \<Longrightarrow>
     reload_state old ms (Suc n) = apply_op (reload_ops ms ! n) (reload_state old ms n)"
  by (simp add: reload_state_def take_Suc_conv_app_nth)

lemma reload_cleared: "postings (reload_state old ms 1) token = {}"
  by (simp add: reload_state_def reload_ops_def postings_def)

section \<open>The filters of a POST search\<close>

text \<open>
  Claim C1. The claim is that a POST search returns the intersection of the result sets
  of all supplied filters, and that an empty running result is never replaced by the
  result of a later filter. The POST block tests \<^verbatim>\<open>results.empty()\<close> to find out whether
  a filter has run before, so an empty intersection is taken for "no filter yet": on the
  catalog with the one movie \<open>inception\<close> (genres Science Fiction and Action, year
  2010), the request body \<^verbatim>\<open>genre=Comedy&year=2010\<close> has the empty genre result and the
  year result \<open>{0}\<close>, and the search returns \<open>{0}\<close> where the intersection is empty.
  (\<^verbatim>\<open>searchByKeywords\<close> keeps the flag \<^verbatim>\<open>isFirst\<close> for this and stops on an empty
  result.)
\<close>

theorem post_filter_replaces_empty_result:
  "searchByCategory (build_index [inception]) ''genre'' ''Comedy'' = {}
   \<and> searchByCategory (build_index [inception]) ''year'' ''2010'' = {0}
   \<and> post_search (build_index [inception]) (parse_params ''genre=Comedy&year=2010'') = {0}"
  by (simp add: post_search_def genre_results_def narrow_def intersectResults_def eval_params
      stream_words_def isspace_def searchByCategory_postings postings_inception
      addMovie_keys_inception toLower_def tolower_def)

section \<open>A reload seen by a concurrent lookup\<close>

text \<open>
  Claim C2, as amended. The reload does not swap a finished index in: it clears the
  live index and inserts the postings in place, each locked call changing the index of
  the call before. A lookup that takes the index mutex between two of these calls reads,
  for every token, the posting set of the old index (before the call of \<^verbatim>\<open>clear\<close>) or a
  subset of the posting set of the rebuilt index (after it), never identifiers of the
  old index mixed into the new ones; right after \<^verbatim>\<open>clear\<close> the index is empty, and after
  the last call it is the rebuilt index.
\<close>

theorem reload_in_place:
  "reload_state old ms 0 = old
   \<and> reload_state old ms 1 = Map.empty
   \<and> (0 < n \<longrightarrow> postings (reload_state old ms n) token \<subseteq> postings (build_index ms) token)
   \<and> (n < length (reload_ops ms) \<longrightarrow>
        reload_state old ms (Suc n) = apply_op (reload_ops ms ! n) (reload_state old ms n))
   \<and> reload_state old ms (length (reload_ops ms)) = build_index ms"
proof (intro conjI impI)
  show "reload_state old ms 0 = old"
    by (simp add: reload_state_def)
  show "reload_state old ms 1 = Map.empty"
    by (simp add: reload_state_def reload_ops_def)
  show "postings (reload_state old ms n) token \<subseteq> postings (build_index ms) token" if "0 < n"
    using that by (rule reload_partial)
  show "reload_state old ms (Suc n) = apply_op (reload_ops ms ! n) (reload_state old ms n)"
    if "n < length (reload_ops ms)"
    using that by (rule reload_step)
  show "reload_state old ms (length (reload_ops ms)) = build_index ms"
    by (rule reload_complete)
qed

text \<open>
  The amended claim at the third locked call of a reload of the example catalog, which
  inserts the posting of \<^verbatim>\<open>genre_fiction\<close>.
\<close>

theorem reload_in_place_witness:
  "(0::nat) < 2
   \<and> 2 < length (reload_ops [inception])
   \<and> postings (reload_state (build_index [inception]) [inception] 2) ''genre_science''
        \<subseteq> postings (build_index [inception]) ''genre_science''
   \<and> reload_state (build_index [inception]) [inception] 3
        = addToIndex ''genre_fiction'' 0 (reload_state (build_index [inception]) [inception] 2)"
proof -
  note reload = reload_in_place [of "build_index [inception]" "[inception]" 2 "''genre_science''"]
  have len: "2 < length (reload_ops [inception])"
    by (simp add: reload_ops_inception addMovie_keys_inception)
  have op: "reload_ops [inception] ! 2 = Add ''genre_fiction'' 0"
    by (simp add: reload_ops_inception addMovie_keys_inception)
  from reload
  have "0 < (2::nat) \<longrightarrow> postings (reload_state (build_index [inception]) [inception] 2) ''genre_science''
        \<subseteq> postings (build_index [inception]) ''genre_science''"
    by (rule conjunct2 [THEN conjunct2, THEN conjunct1])
  then have subset: "postings (reload_state (build_index [inception]) [inception] 2) ''genre_science''
        \<subseteq> postings (build_index [inception]) ''genre_science''"
    by simp
  from reload
  have "2 < length (reload_ops [inception]) \<longrightarrow>
        reload_state (build_index [inception]) [inception] (Suc 2)
          = apply_op (reload_ops [inception] ! 2) (reload_state (build_index [inception]) [inception] 2)"
    by (rule conjunct2 [THEN conjunct2, THEN conjunct2, THEN conjunct1])
  with len have "reload_state (build_index [inception]) [inception] (Suc 2)
          = apply_op (reload_ops [inception] ! 2) (reload_state (build_index [inception]) [inception] 2)"
    by (rule rev_mp)
  then have step: "reload_state (build_index [inception]) [inception] 3
        = addToIndex ''genre_fiction'' 0 (reload_state (build_index [inception]) [inception] 2)"
    by (simp add: op numeral_3_eq_3 [symmetric] eval_nat_numeral [symmetric] del: One_nat_def)
  from len subset step show ?thesis
    by simp
qed

text \<open>
  Claim C2 as stated fails: while the unchanged example catalog is reloaded, a lookup
  that runs right after \<^verbatim>\<open>clear()\<close> finds no posting for \<^verbatim>\<open>year_2010\<close>, although the
  index before the reload and the rebuilt index both hold \<open>{0}\<close> there.
\<close>

theorem atomic_swap_counterexample:
  "\<not> swap_atomic (build_index [inception]) [inception]"
proof
  assume "swap_atomic (build_index [inception]) [inception]"
  then have "postings (reload_state (build_index [inception]) [inception] 1) ''year_2010''
           = postings (build_index [inception]) ''year_2010''"
    unfolding swap_atomic_def by blast
  with reload_cleared [of "build_index [inception]" "[inception]" "''year_2010''"] year_posting
  show False
    by simp
qed

section \<open>The form of the keys\<close>

text \<open>
  Claim C3, as amended. Every key of the index built from any collection of items has
  the form \<open>category @ ''_'' @ v\<close>, with the category one of the six fixed categories
  and the separator an underscore. The value \<open>v\<close> is lower-cased for every category; it
  is normalized (also trimmed of the punctuation set) for the categories title,
  overview, year and rating, while for genre and language keys lower-casing is all that
  holds in general. The category lookup reads the posting set of the single key
  \<open>category @ ''_'' @ toLower val\<close>, built from the lower-cased value.
\<close>

theorem index_key_form:
  "(\<forall>key \<in> dom (build_index ms).
      \<exists>category \<in> set categories. \<exists>v. key = category @ ''_'' @ v \<and> toLower v = v
        \<and> (category \<noteq> ''genre'' \<and> category \<noteq> ''language'' \<longrightarrow> normalized v))
   \<and> searchByCategory idx category val = postings idx (category @ ''_'' @ toLower val)
   \<and> toLower (toLower val) = toLower val"
proof (intro conjI ballI)
  fix key
  assume "key \<in> dom (build_index ms)"
  then obtain i where "key \<in> set (addMovie_keys (ms ! i))"
    unfolding dom_build_index by blast
  then show "\<exists>category \<in> set categories. \<exists>v. key = category @ ''_'' @ v \<and> toLower v = v
        \<and> (category \<noteq> ''genre'' \<and> category \<noteq> ''language'' \<longrightarrow> normalized v)"
    by (rule key_shape)
next
  show "searchByCategory idx category val = postings idx (category @ ''_'' @ toLower val)"
    by (rule searchByCategory_postings)
next
  show "toLower (toLower val) = toLower val"
    by (rule toLower_idem)
qed

text \<open>The amended claim at the key \<^verbatim>\<open>year_2010\<close> of the example catalog.\<close>

theorem index_key_form_witness:
  "''year_2010'' \<in> dom (build_index [inception])
   \<and> (\<exists>category \<in> set categories. \<exists>v. ''year_2010'' = category @ ''_'' @ v \<and> toLower v = v
        \<and> (category \<noteq> ''genre'' \<and> category \<noteq> ''language'' \<longrightarrow> normalized v))
   \<and> searchByCategory (build_index [inception]) ''year'' ''2010'' = postings (build_index [inception]) ''year_2010''"
proof -
  note form = index_key_form [of "[inception]" "build_index [inception]" "''year''" "''2010''"]
  from form have "\<forall>key \<in> dom (build_index [inception]).
      \<exists>category \<in> set categories. \<exists>v. key = category @ ''_'' @ v \<and> toLower v = v
        \<and> (category \<noteq> ''genre'' \<and> category \<noteq> ''language'' \<longrightarrow> normalized v)"
    by (rule conjunct1)
  then have "\<exists>category \<in> set categories. \<exists>v. ''year_2010'' = category @ ''_'' @ v \<and> toLower v = v
        \<and> (category \<noteq> ''genre'' \<and> category \<noteq> ''language'' \<longrightarrow> normalized v)"
    using year_key_present by (rule bspec)
  moreover from form
  have "searchByCategory (build_index [inception]) ''year'' ''2010''
          = postings (build_index [inception]) (''year'' @ ''_'' @ toLower ''2010'')"
    by (rule conjunct2 [THEN conjunct1])
  then have "searchByCategory (build_index [inception]) ''year'' ''2010''
          = postings (build_index [inception]) ''year_2010''"
    by (simp add: toLower_def tolower_def)
  ultimately show ?thesis
    using year_key_present by (intro conjI)
qed

text \<open>
  Claim C3 as stated fails on the catalog with the one item \<open>tv_movie\<close>, in each of the
  three ways the amendment changes it. The separator: the key \<^verbatim>\<open>year_2001\<close> is no
  category followed by a colon and a value. The values of genre and language keys: the
  keys \<^verbatim>\<open>genre_(tv)\<close> and \<^verbatim>\<open>language_(en)\<close> are in the index, and their values are not
  normalized. The probe key: the category lookup of genre with \<^verbatim>\<open>(TV)\<close> finds the item,
  which the key of the normalized value \<^verbatim>\<open>tv\<close> does not hold.
\<close>

theorem key_form_counterexample:
  "\<not> (\<forall>key \<in> dom (build_index [tv_movie]).
         \<exists>category \<in> set categories. \<exists>v. key = category @ '':'' @ v \<and> normalized v)
   \<and> ''year_2001'' \<in> dom (build_index [tv_movie])
   \<and> \<not> (\<exists>category \<in> set categories. \<exists>v. ''year_2001'' = category @ '':'' @ v)
   \<and> ''genre_(tv)'' \<in> dom (build_index [tv_movie])
   \<and> \<not> (\<exists>category \<in> set categories. \<exists>v. ''genre_(tv)'' = category @ ''_'' @ v \<and> normalized v)
   \<and> ''language_(en)'' \<in> dom (build_index [tv_movie])
   \<and> \<not> (\<exists>category \<in> set categories. \<exists>v. ''language_(en)'' = category @ ''_'' @ v \<and> normalized v)
   \<and> searchByCategory (build_index [tv_movie]) ''genre'' ''(TV)'' = {0}
   \<and> postings (build_index [tv_movie]) (''genre'' @ ''_'' @ toLower (cleanWord ''(TV)'')) = {}"
proof -
  have year: "''year_2001'' \<in> dom (build_index [tv_movie])"
    by (simp add: dom_single addMovie_keys_tv_movie)
  have no_colon: "\<not> (\<exists>category \<in> set categories. \<exists>v. ''year_2001'' = category @ '':'' @ v)"
    by (simp add: categories_def)
  have stated: "\<not> (\<forall>key \<in> dom (build_index [tv_movie]).
         \<exists>category \<in> set categories. \<exists>v. key = category @ '':'' @ v \<and> normalized v)"
    using year no_colon by blast
  have genre: "''genre_(tv)'' \<in> dom (build_index [tv_movie])"
    by (simp add: dom_single addMovie_keys_tv_movie)
  have genre_value: "\<not> (\<exists>category \<in> set categories. \<exists>v. ''genre_(tv)'' = category @ ''_'' @ v \<and> normalized v)"
    by (simp add: categories_def normalized_def cleanWord_def clean_chars_def toLower_def tolower_def)
  have language: "''language_(en)'' \<in> dom (build_index [tv_movie])"
    by (simp add: dom_single addMovie_keys_tv_movie)
  have language_value: "\<not> (\<exists>category \<in> set categories. \<exists>v. ''language_(en)'' = category @ ''_'' @ v \<and> normalized v)"
    by (simp add: categories_def normalized_def cleanWord_def clean_chars_def toLower_def tolower_def)
  have lookup: "searchByCategory (build_index [tv_movie]) ''genre'' ''(TV)'' = {0}"
    by (simp add: searchByCategory_postings postings_single addMovie_keys_tv_movie toLower_def tolower_def)
  have probe: "postings (build_index [tv_movie]) (''genre'' @ ''_'' @ toLower (cleanWord ''(TV)'')) = {}"
    by (simp add: postings_single addMovie_keys_tv_movie cleanWord_def clean_chars_def toLower_def tolower_def)
  from stated year no_colon genre genre_value language language_value lookup probe
  show ?thesis
    by (intro conjI)
qed

section \<open>Which blocks a request enters\<close>

text \<open>
  Claim C4. The claim is that the GET block runs only for a request that starts with
  \<^verbatim>\<open>GET\<close>, and the POST block only for one that starts with \<^verbatim>\<open>POST\<close>. Only the SEARCH
  test is a test of the first bytes; the other two tests hold wherever the word occurs
  in the request. The POST request below, whose keyword field is \<^verbatim>\<open>GET+OUT\<close>, has \<^verbatim>\<open>GET\<close>
  at offset 28: it enters the GET block and the POST block, and the form is sent before
  the result page.
\<close>

theorem get_path_runs_on_post_request:
  "(runs_search request \<longleftrightarrow> take 6 request = ''SEARCH'')
   \<and> find_str (''POST / HTTP/1.1'' @ crlf @ crlf @ ''keywords=GET+OUT'') ''GET'' = Some 28
   \<and> runs_get (''POST / HTTP/1.1'' @ crlf @ crlf @ ''keywords=GET+OUT'')
   \<and> handleClient example_state (Data (''POST / HTTP/1.1'' @ crlf @ crlf @ ''keywords=GET+OUT''))
     = Returned [Send (FormPage {''Science Fiction'', ''Action''} {2010} {''en''}),
                 Send NoMatchPage, CloseSocket]"
proof (intro conjI)
  show "runs_search request \<longleftrightarrow> take 6 request = ''SEARCH''"
    by (rule runs_search_prefix)
  show "find_str (''POST / HTTP/1.1'' @ crlf @ crlf @ ''keywords=GET+OUT'') ''GET'' = Some 28"
    by (simp add: crlf_def find_str_def)
  show "runs_get (''POST / HTTP/1.1'' @ crlf @ crlf @ ''keywords=GET+OUT'')"
    by (simp add: runs_get_def crlf_def find_str_def)
  show "handleClient example_state (Data (''POST / HTTP/1.1'' @ crlf @ crlf @ ''keywords=GET+OUT''))
     = Returned [Send (FormPage {''Science Fiction'', ''Action''} {2010} {''en''}),
                 Send NoMatchPage, CloseSocket]"
    by (simp add: handleClient_def runs_get_def runs_post_def runs_search_def crlf_def find_str_def
        get_path_def example_state_def post_path_def post_body_def substr_def eval_params
        post_search_def post_keywords_def keyResults_postings category_prefixes_def narrow_def
        intersectResults_def cleanWord_def clean_chars_def toLower_def tolower_def
        postings_inception addMovie_keys_inception Let_def)
qed

section \<open>Rating buckets\<close>

text \<open>
  Claim C5. In the index built from a catalog, the identifier of an item whose rating
  \<open>r\<close> satisfies \<open>0 < r \<le> 10\<close> is in the rating bucket \<open>k\<close> exactly when
  \<open>\<lfloor>r\<rfloor> \<le> k \<le> 10\<close>: it is in every bucket from \<open>\<lfloor>r\<rfloor>\<close> to 10 and in no bucket below
  \<open>\<lfloor>r\<rfloor>\<close>. The bucket \<open>k\<close> is read by the category lookup of \<^verbatim>\<open>rating\<close> with the decimal
  text of \<open>k\<close>. The catalog has at most \<open>2^31\<close> items, so that the identifiers, which are
  \<^verbatim>\<open>int\<close> values, are distinct.
\<close>

theorem rating_buckets:
  assumes "length ms \<le> 2 ^ 31" and "i < length ms"
    and "0 < rating (ms ! i)" and "rating (ms ! i) \<le> 10"
  shows "to_int i \<in> searchByCategory (build_index ms) ''rating'' (to_string k)
           \<longleftrightarrow> \<lfloor>rating (ms ! i)\<rfloor> \<le> k \<and> k \<le> 10"
proof -
  have inj: "j = i" if "j < length ms" and "to_int j = to_int i" for j
    using that assms(1,2) by (simp add: to_int_small)
  have "to_int i \<in> searchByCategory (build_index ms) ''rating'' (to_string k)
      \<longleftrightarrow> (\<exists>j. to_int i = to_int j \<and> j < length ms \<and> ''rating_'' @ to_string k \<in> set (addMovie_keys (ms ! j)))"
    by (simp add: searchByCategory_postings toLower_to_string postings_build_index)
  also have "\<dots> \<longleftrightarrow> ''rating_'' @ to_string k \<in> set (addMovie_keys (ms ! i))"
    using assms(2) inj by metis
  also have "\<dots> \<longleftrightarrow> \<lfloor>rating (ms ! i)\<rfloor> \<le> k \<and> k \<le> 10"
    using assms(3) rating_key_iff [of k "ms ! i"] by (simp add: trunc_int_def)
  finally show ?thesis .
qed

text \<open>
  The claim for an item of rating 7.3 (the \<^verbatim>\<open>float\<close> nearest to it is \<open>7654605 / 2^20\<close>):
  it is in the buckets 7 and 10 and not in the bucket 6.
\<close>

theorem rating_buckets_witness:
  "to_int 0 \<in> searchByCategory (build_index [inception\<lparr>rating := 7654605 / 1048576\<rparr>]) ''rating'' (to_string 7)
   \<and> to_int 0 \<in> searchByCategory (build_index [inception\<lparr>rating := 7654605 / 1048576\<rparr>]) ''rating'' (to_string 10)
   \<and> to_int 0 \<notin> searchByCategory (build_index [inception\<lparr>rating := 7654605 / 1048576\<rparr>]) ''rating'' (to_string 6)"
  using rating_buckets [of "[inception\<lparr>rating := 7654605 / 1048576\<rparr>]" 0 7]
    rating_buckets [of "[inception\<lparr>rating := 7654605 / 1048576\<rparr>]" 0 10]
    rating_buckets [of "[inception\<lparr>rating := 7654605 / 1048576\<rparr>]" 0 6]
  by simp

section \<open>A query without criteria\<close>

text \<open>
  Claim C6. A search without filters and keywords has the empty result over any index,
  never the full catalog: the keyword search of the empty keyword sequence is empty; the
  POST search is empty when the fields \<^verbatim>\<open>genre\<close>, \<^verbatim>\<open>year\<close>, \<^verbatim>\<open>language\<close> and \<^verbatim>\<open>keywords\<close>
  are all empty or absent, and the POST block then sends the page that says that no
  movie matches.
\<close>

theorem empty_query:
  "searchByKeywords idx [] = {}
   \<and> (param params ''genre'' = [] \<and> param params ''year'' = [] \<and> param params ''language'' = []
        \<and> param params ''keywords'' = [] \<longrightarrow> post_search idx params = {})
   \<and> (post_body request = Some body \<and> param (parse_params body) ''genre'' = []
        \<and> param (parse_params body) ''year'' = [] \<and> param (parse_params body) ''language'' = []
        \<and> param (parse_params body) ''keywords'' = []
        \<longrightarrow> post_path st request = Some [Send NoMatchPage])"
  by (simp add: searchByKeywords_def post_search_def post_path_def)

text \<open>The claim at the request a browser sends for the form with nothing filled in.\<close>

theorem empty_query_witness:
  "post_search (build_index [inception]) (parse_params ''genre=&year=&language=&keywords='') = {}
   \<and> post_path example_state (''POST / HTTP/1.1'' @ crlf @ crlf @ ''genre=&year=&language=&keywords='')
       = Some [Send NoMatchPage]"
  using empty_query [of "build_index [inception]" "parse_params ''genre=&year=&language=&keywords=''"
      "''POST / HTTP/1.1'' @ crlf @ crlf @ ''genre=&year=&language=&keywords=''"
      "''genre=&year=&language=&keywords=''" example_state]
    body_example params_example
  by simp

section \<open>The early exit of the keyword search\<close>

text \<open>
  Claim C7. For every index and every keyword sequence, \<^verbatim>\<open>searchByKeywords\<close>, which
  leaves its loop as soon as the running result is empty, returns the set the
  evaluation without the early exit returns; for a sequence that is not empty this is
  the intersection, over all keywords, of the unions over the six categories. Once the
  result of a sequence of keywords is empty, it is empty for every longer sequence that
  starts with it.
\<close>

theorem short_circuit_refines_naive:
  "searchByKeywords idx keys = naive_keywords idx keys
   \<and> (keys \<noteq> [] \<longrightarrow> searchByKeywords idx keys = (\<Inter>k \<in> set keys. keyword_union idx k))
   \<and> (keys \<noteq> [] \<and> searchByKeywords idx keys = {} \<longrightarrow> searchByKeywords idx (keys @ rest) = {})"
  using naive_keywords_append_empty [of keys idx rest] naive_keywords_Inter [of keys idx]
  by (auto simp add: searchByKeywords_naive)

text \<open>
  The claim on the example catalog: \<^verbatim>\<open>Inception thief\<close> matches the item, through the
  title category for the first keyword and the overview category for the second, and
  the intersection of the two six-category unions is that item too; \<^verbatim>\<open>Inception 2099\<close>
  matches nothing, and so does \<^verbatim>\<open>Inception 2099 thief\<close>.
\<close>

theorem short_circuit_refines_naive_witness:
  "searchByKeywords (build_index [inception]) [''Inception'', ''thief''] = {0}
   \<and> (\<Inter>k \<in> set [''Inception'', ''thief'']. keyword_union (build_index [inception]) k) = {0}
   \<and> naive_keywords (build_index [inception]) [''Inception'', ''thief''] = {0}
   \<and> searchByKeywords (build_index [inception]) [''Inception'', ''2099''] = {}
   \<and> searchByKeywords (build_index [inception]) ([''Inception'', ''2099''] @ [''thief'']) = {}"
proof -
  note found = short_circuit_refines_naive [of "build_index [inception]" "[''Inception'', ''thief'']" "[]"]
  note none = short_circuit_refines_naive [of "build_index [inception]" "[''Inception'', ''2099'']" "[''thief'']"]
  from found have "naive_keywords (build_index [inception]) [''Inception'', ''thief''] = {0}"
    by (simp only: search_example_found)
  moreover from found
  have "[''Inception'', ''thief''] \<noteq> [] \<longrightarrow> searchByKeywords (build_index [inception]) [''Inception'', ''thief'']
          = (\<Inter>k \<in> set [''Inception'', ''thief'']. keyword_union (build_index [inception]) k)"
    by (rule conjunct2 [THEN conjunct1])
  then have "(\<Inter>k \<in> set [''Inception'', ''thief'']. keyword_union (build_index [inception]) k) = {0}"
    by (simp only: search_example_found list.distinct not_False_eq_True simp_thms)
  moreover from none
  have "[''Inception'', ''2099''] \<noteq> [] \<and> searchByKeywords (build_index [inception]) [''Inception'', ''2099''] = {}
          \<longrightarrow> searchByKeywords (build_index [inception]) ([''Inception'', ''2099''] @ [''thief'']) = {}"
    by (rule conjunct2 [THEN conjunct2])
  with search_example
  have "searchByKeywords (build_index [inception]) ([''Inception'', ''2099''] @ [''thief'']) = {}"
    by blast
  ultimately show ?thesis
    using search_example_found search_example by (intro conjI)
qed

section \<open>Round trip of the category lookup\<close>

text \<open>
  Claim C8. For every item of an indexed catalog (whether or not a validation has
  selected it), the category lookup of \<^verbatim>\<open>year\<close> with the item's year, of \<^verbatim>\<open>language\<close>
  with the item's language, and of \<^verbatim>\<open>genre\<close> with each whitespace-separated word of
  each of the item's genre strings returns a posting set that contains the item's
  identifier.
\<close>

theorem lookup_round_trip:
  assumes "i < length ms"
  shows "to_int i \<in> searchByCategory (build_index ms) ''year'' (to_string (year (ms ! i)))
       \<and> to_int i \<in> searchByCategory (build_index ms) ''language'' (language (ms ! i))
       \<and> (\<forall>genre \<in> set (genres (ms ! i)). \<forall>word \<in> set (stream_words genre).
            to_int i \<in> searchByCategory (build_index ms) ''genre'' word)"
proof -
  have "''year_'' @ to_string (year (ms ! i)) \<in> set (addMovie_keys (ms ! i))"
    by (simp add: addMovie_keys_def)
  moreover have "''language_'' @ toLower (language (ms ! i)) \<in> set (addMovie_keys (ms ! i))"
    by (simp add: addMovie_keys_def)
  moreover have "''genre_'' @ toLower word \<in> set (addMovie_keys (ms ! i))"
    if "genre \<in> set (genres (ms ! i))" and "word \<in> set (stream_words genre)" for genre word
    using that by (auto simp add: addMovie_keys_def)
  ultimately show ?thesis
    using assms
    by (simp add: searchByCategory_postings toLower_to_string postings_build_index) blast
qed

text \<open>The claim for the one item of the example catalog.\<close>

theorem lookup_round_trip_witness:
  "to_int 0 \<in> searchByCategory (build_index [inception]) ''year'' ''2010''
   \<and> to_int 0 \<in> searchByCategory (build_index [inception]) ''language'' ''en''
   \<and> to_int 0 \<in> searchByCategory (build_index [inception]) ''genre'' ''Science''
   \<and> to_int 0 \<in> searchByCategory (build_index [inception]) ''genre'' ''Fiction''
   \<and> to_int 0 \<in> searchByCategory (build_index [inception]) ''genre'' ''Action''"
  using lookup_round_trip [of 0 "[inception]"]
  by (simp add: inception_def stream_words_def isspace_def to_string_def digits10.simps digit_char_def)

section \<open>A catalog file that cannot be opened\<close>

text \<open>
  Claim C9. When the catalog file cannot be opened, \<^verbatim>\<open>loadMovies\<close> reports the error and
  returns at once: the item collection, the derived sets and the inverted index are the
  ones from before the call, whatever they were.
\<close>

theorem failed_open_keeps_state:
  "loadMovies stof None numThreads st = OpenFailed ''Error: Unable to open file!'' st"
  by (simp add: loadMovies_def)

section \<open>Identifiers returned by a search\<close>

text \<open>
  Claim C10. After a completed load of a catalog of \<open>M\<close> items, every identifier in
  every posting set of the index is at least 0 and below \<open>M\<close>, and so is every identifier
  the category lookup, the keyword search and the POST search return: the accesses
  \<^verbatim>\<open>movies[id]\<close> that build a response are in bounds. \<open>M\<close> is at most \<open>2^31\<close>, the range in
  which the loop counter of the rebuild fits the \<^verbatim>\<open>int\<close> parameter of \<^verbatim>\<open>addMovie\<close>.
\<close>

theorem loaded_ids_in_range:
  assumes "loadMovies stof file numThreads st = Loaded msg st'"
    and "length (movies st') \<le> 2 ^ 31"
  shows "(\<forall>key s. invertedIndex st' key = Some s \<longrightarrow> s \<subseteq> {0..<int (length (movies st'))})
       \<and> searchByCategory (invertedIndex st') category val \<subseteq> {0..<int (length (movies st'))}
       \<and> searchByKeywords (invertedIndex st') keys \<subseteq> {0..<int (length (movies st'))}
       \<and> post_search (invertedIndex st') params \<subseteq> {0..<int (length (movies st'))}"
proof -
  let ?A = "{0..<int (length (movies st'))}"
  have idx: "invertedIndex st' = build_index (movies st')"
    using assms(1) by (rule loadMovies_Loaded)
  have p: "postings (invertedIndex st') key \<subseteq> ?A" for key
    unfolding idx using assms(2) by (rule build_index_ids)
  have "s \<subseteq> ?A" if "invertedIndex st' key = Some s" for key s
    using p [of key] that by (simp add: postings_def)
  moreover have "searchByCategory (invertedIndex st') category val \<subseteq> ?A"
    using p by (simp add: searchByCategory_postings)
  moreover have "searchByKeywords (invertedIndex st') keys \<subseteq> ?A"
    unfolding searchByKeywords_def using p by (rule keywords_loop_subset) simp
  moreover have "post_search (invertedIndex st') params \<subseteq> ?A"
    using p by (rule post_search_subset)
  ultimately show ?thesis by blast
qed

text \<open>
  The claim after loading the example file with one thread: the posting set of
  \<^verbatim>\<open>year_2010\<close> and the result of a keyword search are inside the catalog of one item.
\<close>

theorem loaded_ids_in_range_witness:
  "loadMovies example_stof (Some example_csv) 1 initial_state
     = Loaded ''Movies loaded and indexed successfully with 1 threads.'' example_state
   \<and> length (movies example_state) \<le> 2 ^ 31
   \<and> invertedIndex example_state ''year_2010'' = Some {0}
   \<and> {0} \<subseteq> {0..<int (length (movies example_state))}
   \<and> searchByKeywords (invertedIndex example_state) [''Inception'', ''thief'']
        \<subseteq> {0..<int (length (movies example_state))}"
proof -
  have len: "length (movies example_state) \<le> 2 ^ 31"
    by (simp add: example_state_def)
  have entry: "invertedIndex example_state ''year_2010'' = Some {0}"
    by (simp add: example_state_def year_entry)
  note range = loaded_ids_in_range [OF load_example len, of "''year''" "''2010''"
      "[''Inception'', ''thief'']" Map.empty]
  from range entry have "{0} \<subseteq> {0..<int (length (movies example_state))}"
    by blast
  moreover from range
  have "searchByKeywords (invertedIndex example_state) [''Inception'', ''thief'']
          \<subseteq> {0..<int (length (movies example_state))}"
    by blast
  ultimately show ?thesis
    using load_example len entry by (intro conjI)
qed

end
